theory Spec2Isabelle
  imports Complex_Main "HOL-Library.Word"
begin

section \<open>Python values: exceptions\<close>

text \<open>
  Exceptions are values. \<open>CancelledError\<close> stands for the exceptions that derive from
  \<open>BaseException\<close> only, which an \<open>except Exception\<close> clause does not catch.
\<close>

datatype exn =
    RuntimeError string
  | KeyError string
  | TypeError string
  | ValueError string
  | AttributeError string
  | LibraryError string
  | CancelledError

fun is_Exception :: "exn \<Rightarrow> bool" where
  "is_Exception CancelledError = False"
| "is_Exception _ = True"

text \<open>\<open>str(e)\<close>: the message; a \<open>KeyError\<close> prints the quoted key.\<close>

fun str_exn :: "exn \<Rightarrow> string" where
  "str_exn (RuntimeError m) = m"
| "str_exn (KeyError k) = [CHR 0x27] @ k @ [CHR 0x27]"
| "str_exn (TypeError m) = m"
| "str_exn (ValueError m) = m"
| "str_exn (AttributeError m) = m"
| "str_exn (LibraryError m) = m"
| "str_exn CancelledError = []"

section \<open>Frames and the array store\<close>

text \<open>
  A frame is an array of rows of three-channel pixels, each channel one byte. Arrays are
  objects: they live in a store and are referred to by address, because
  \<open>draw_landmarks\<close> writes into the array it is given while \<open>cv2.cvtColor\<close> returns
  a new one.
\<close>

type_synonym pixel = "8 word \<times> 8 word \<times> 8 word"
type_synonym image = "pixel list list"
type_synonym addr = nat
type_synonym store = "image list"

definition swap_channels :: "image \<Rightarrow> image" where
  "swap_channels = map (map (\<lambda>(c0, c1, c2). (c2, c1, c0)))"

text \<open>\<open>cv2.cvtColor(src, cv2.COLOR_BGR2RGB)\<close>: a fresh array holding the converted pixels.\<close>

definition cvtColor :: "store \<Rightarrow> addr \<Rightarrow> addr \<times> store" where
  "cvtColor s src = (length s, s @ [swap_channels (s ! src)])"

section \<open>The capture device\<close>

datatype cap_prop = CAP_PROP_FRAME_WIDTH | CAP_PROP_FRAME_HEIGHT | CAP_PROP_FPS

record capture =
  opened :: bool
  props :: "cap_prop \<Rightarrow> int option"
  release_calls :: nat

definition VideoCapture :: "bool \<Rightarrow> capture" where
  "VideoCapture available = \<lparr>opened = available, props = (\<lambda>_. None), release_calls = 0\<rparr>"

text \<open>\<open>cap.set\<close> on a device that is not open changes nothing (and returns False).\<close>

definition cap_set :: "capture \<Rightarrow> cap_prop \<Rightarrow> int \<Rightarrow> capture" where
  "cap_set c p v = (if opened c then c\<lparr>props := (props c)(p \<mapsto> v)\<rparr> else c)"

definition isOpened :: "capture \<Rightarrow> bool" where
  "isOpened c = opened c"

definition release :: "capture \<Rightarrow> capture" where
  "release c = c\<lparr>opened := False, release_calls := Suc (release_calls c)\<rparr>"

section \<open>The landmark detectors and the drawing utility\<close>

text \<open>
  The detectors track across frames, so what a detector answers depends on every image it
  has consumed: its state is that history, and the inference itself is a parameter
  (\<open>pose_model\<close>, \<open>hands_model\<close>) from the history, current image last, to the
  landmarks found. \<open>pose_landmarks\<close> is None or a landmark list;
  \<open>multi_hand_landmarks\<close> is None or a list with one landmark list per hand.
  A detector that was closed has no graph any more: processing or closing it again raises.
\<close>

record detector =
  min_detection_confidence :: rat
  min_tracking_confidence :: rat
  seen :: "image list"
  close_calls :: nat

definition new_detector :: "rat \<Rightarrow> rat \<Rightarrow> detector" where
  "new_detector mdc mtc =
     \<lparr>min_detection_confidence = mdc, min_tracking_confidence = mtc, seen = [], close_calls = 0\<rparr>"

definition detector_process ::
  "(image list \<Rightarrow> 'r) \<Rightarrow> detector \<Rightarrow> image \<Rightarrow> (exn + 'r) \<times> detector" where
  "detector_process model d img =
     (if 0 < close_calls d then (Inl (AttributeError ''process on a closed solution''), d)
      else (Inr (model (seen d @ [img])), d\<lparr>seen := seen d @ [img]\<rparr>))"

definition detector_close :: "detector \<Rightarrow> exn + detector" where
  "detector_close d =
     (if 0 < close_calls d then Inl (AttributeError ''close on a closed solution'')
      else Inr (d\<lparr>close_calls := Suc (close_calls d)\<rparr>))"

datatype connections = POSE_CONNECTIONS | HAND_CONNECTIONS

record drawing_spec =
  color :: "nat \<times> nat \<times> nat"
  thickness :: nat

definition DrawingSpec :: "nat \<times> nat \<times> nat \<Rightarrow> nat \<Rightarrow> drawing_spec" where
  "DrawingSpec c t = \<lparr>color = c, thickness = t\<rparr>"

record 'lm mediapipe =
  pose_model :: "image list \<Rightarrow> 'lm option"
  hands_model :: "image list \<Rightarrow> 'lm list option"
  draw_pixels :: "image \<Rightarrow> 'lm \<Rightarrow> connections \<Rightarrow> drawing_spec \<Rightarrow> drawing_spec \<Rightarrow> image"

text \<open>\<open>mp_drawing.draw_landmarks(image, ...)\<close> draws into the array \<open>image\<close> refers to.\<close>

definition draw_landmarks ::
  "'lm mediapipe \<Rightarrow> store \<Rightarrow> addr \<Rightarrow> 'lm \<Rightarrow> connections \<Rightarrow> drawing_spec \<Rightarrow> drawing_spec \<Rightarrow> store" where
  "draw_landmarks mp s img lm conns lspec cspec =
     s[img := draw_pixels mp (s ! img) lm conns lspec cspec]"

section \<open>VideoTransformTrack\<close>

text \<open>
  The two programs, \<open>camera_stream.py\<close> and \<open>camera_stream_pose.py\<close>, define the same
  class with and without the detectors. An attribute of the object is None until
  \<open>__init__\<close> assigns it (\<open>hasattr\<close> is then False); \<open>cap\<close> holds a Python value
  that could itself be None, which \<open>__del__\<close> tests.
\<close>

datatype variant = Plain | WithPose

record track_obj =
  cap :: "capture option option"
  pose :: "detector option"
  hands :: "detector option"
  time_base :: "rat option"
  pts :: "int option"

definition empty_obj :: track_obj where
  "empty_obj = \<lparr>cap = None, pose = None, hands = None, time_base = None, pts = None\<rparr>"

text \<open>What the outside world answers while a track is constructed.\<close>

record world =
  VideoCapture_raises :: "exn option"
  camera_available :: bool
  Pose_raises :: "exn option"
  Hands_raises :: "exn option"

definition camera_error :: string where
  "camera_error = ''No se pudo abrir la c'' @ [CHR 0xE1] @ ''mara''"

text \<open>
  \<open>__init__\<close> returns the exception it raised, if any, and the object as far as it was
  built: the attributes assigned before the raise stay on it.
\<close>

definition open_camera :: "world \<Rightarrow> exn option \<times> track_obj" where
  "open_camera w =
     (case VideoCapture_raises w of
        Some e \<Rightarrow> (Some e, empty_obj)
      | None \<Rightarrow>
          (let c0 = VideoCapture (camera_available w);
               c1 = cap_set c0 CAP_PROP_FRAME_WIDTH 640;
               c2 = cap_set c1 CAP_PROP_FRAME_HEIGHT 480;
               c3 = cap_set c2 CAP_PROP_FPS 30;
               self = empty_obj\<lparr>cap := Some (Some c3)\<rparr>
           in if \<not> isOpened c3 then (Some (RuntimeError camera_error), self)
              else (None, self)))"

definition init_plain :: "world \<Rightarrow> exn option \<times> track_obj" where
  "init_plain w =
     (case open_camera w of
        (Some e, self) \<Rightarrow> (Some e, self)
      | (None, self) \<Rightarrow> (None, self\<lparr>time_base := Some (Fract 1 30), pts := Some 0\<rparr>))"

definition init_pose :: "world \<Rightarrow> exn option \<times> track_obj" where
  "init_pose w =
     (case open_camera w of
        (Some e, self) \<Rightarrow> (Some e, self)
      | (None, self) \<Rightarrow>
          (case Pose_raises w of
             Some e \<Rightarrow> (Some e, self)
           | None \<Rightarrow>
               (let self1 = self\<lparr>pose := Some (new_detector (1 / 2) (1 / 2))\<rparr>
                in case Hands_raises w of
                     Some e \<Rightarrow> (Some e, self1)
                   | None \<Rightarrow>
                       (None, self1\<lparr>hands := Some (new_detector (1 / 2) (1 / 2)),
                                     time_base := Some (Fract 1 30), pts := Some 0\<rparr>))))"

definition init :: "variant \<Rightarrow> world \<Rightarrow> exn option \<times> track_obj" where
  "init v w = (case v of Plain \<Rightarrow> init_plain w | WithPose \<Rightarrow> init_pose w)"

subsection \<open>process_frame (pose variant)\<close>

text \<open>
  The result is the exception or the address returned, the object and the store. The hand
  detector reads the array \<open>rgb_frame\<close> refers to as it is when \<open>hands.process\<close> is
  called, that is after the pose overlay was drawn into \<open>frame\<close>.
\<close>

definition pose_landmark_spec :: drawing_spec where
  "pose_landmark_spec = DrawingSpec (0, 255, 0) 2"

definition pose_connection_spec :: drawing_spec where
  "pose_connection_spec = DrawingSpec (255, 0, 0) 2"

definition hand_landmark_spec :: drawing_spec where
  "hand_landmark_spec = DrawingSpec (0, 0, 255) 2"

definition hand_connection_spec :: drawing_spec where
  "hand_connection_spec = DrawingSpec (255, 255, 0) 2"

definition draw_pose :: "'lm mediapipe \<Rightarrow> store \<Rightarrow> addr \<Rightarrow> 'lm option \<Rightarrow> store" where
  "draw_pose mp s frame pose_landmarks =
     (case pose_landmarks of
        None \<Rightarrow> s
      | Some lm \<Rightarrow>
          draw_landmarks mp s frame lm POSE_CONNECTIONS pose_landmark_spec pose_connection_spec)"

definition draw_hands :: "'lm mediapipe \<Rightarrow> store \<Rightarrow> addr \<Rightarrow> 'lm list option \<Rightarrow> store" where
  "draw_hands mp s frame multi_hand_landmarks =
     (case multi_hand_landmarks of
        None \<Rightarrow> s
      | Some hls \<Rightarrow>
          if hls = [] then s
          else fold (\<lambda>hand_landmarks st.
                 draw_landmarks mp st frame hand_landmarks HAND_CONNECTIONS
                   hand_landmark_spec hand_connection_spec) hls s)"

definition process_frame ::
  "'lm mediapipe \<Rightarrow> track_obj \<Rightarrow> store \<Rightarrow> addr \<Rightarrow> (exn + addr) \<times> track_obj \<times> store" where
  "process_frame mp self s frame =
     (let (rgb_frame, s1) = cvtColor s frame in
      case pose self of
        None \<Rightarrow> (Inl (AttributeError ''pose''), self, s1)
      | Some pd \<Rightarrow>
          (case detector_process (pose_model mp) pd (s1 ! rgb_frame) of
             (Inl e, pd') \<Rightarrow> (Inl e, self\<lparr>pose := Some pd'\<rparr>, s1)
           | (Inr pose_landmarks, pd') \<Rightarrow>
               (let self1 = self\<lparr>pose := Some pd'\<rparr>;
                    s2 = draw_pose mp s1 frame pose_landmarks
                in case hands self1 of
                     None \<Rightarrow> (Inl (AttributeError ''hands''), self1, s2)
                   | Some hdet \<Rightarrow>
                       (case detector_process (hands_model mp) hdet (s2 ! rgb_frame) of
                          (Inl e, hdet') \<Rightarrow> (Inl e, self1\<lparr>hands := Some hdet'\<rparr>, s2)
                        | (Inr multi_hand_landmarks, hdet') \<Rightarrow>
                            (Inr frame, self1\<lparr>hands := Some hdet'\<rparr>,
                             draw_hands mp s2 frame multi_hand_landmarks)))))"

subsection \<open>recv\<close>

record video_frame =
  vf_data :: image
  vf_pts :: int
  vf_time_base :: rat

text \<open>
  The tail both variants share: \<open>VideoFrame.from_ndarray\<close>, then \<open>pts\<close> and
  \<open>time_base\<close> are read from the object and the counter is incremented.
\<close>

definition to_video_frame :: "track_obj \<Rightarrow> image \<Rightarrow> (exn + video_frame option) \<times> track_obj" where
  "to_video_frame self data =
     (case pts self of
        None \<Rightarrow> (Inl (AttributeError ''pts''), self)
      | Some p \<Rightarrow>
          (case time_base self of
             None \<Rightarrow> (Inl (AttributeError ''time_base''), self)
           | Some tb \<Rightarrow>
               (Inr (Some \<lparr>vf_data = data, vf_pts = p, vf_time_base = tb\<rparr>),
                self\<lparr>pts := Some (p + 1)\<rparr>)))"

text \<open>
  \<open>rd\<close> is what \<open>self.cap.read()\<close> gives on this call: None for \<open>ret = False\<close>,
  the frame otherwise. The frame is a new array, at address 0 of the call's store.
\<close>

definition recv_plain :: "track_obj \<Rightarrow> image option \<Rightarrow> (exn + video_frame option) \<times> track_obj" where
  "recv_plain self rd =
     (case cap self of
        None \<Rightarrow> (Inl (AttributeError ''cap''), self)
      | Some None \<Rightarrow> (Inl (AttributeError ''read''), self)
      | Some (Some c) \<Rightarrow>
          (case rd of
             None \<Rightarrow> (Inr None, self)
           | Some img \<Rightarrow>
               (let (frame, s1) = cvtColor [img] 0
                in to_video_frame self (s1 ! frame))))"

definition recv_pose ::
  "'lm mediapipe \<Rightarrow> track_obj \<Rightarrow> image option \<Rightarrow> (exn + video_frame option) \<times> track_obj" where
  "recv_pose mp self rd =
     (case cap self of
        None \<Rightarrow> (Inl (AttributeError ''cap''), self)
      | Some None \<Rightarrow> (Inl (AttributeError ''read''), self)
      | Some (Some c) \<Rightarrow>
          (case rd of
             None \<Rightarrow> (Inr None, self)
           | Some img \<Rightarrow>
               (case process_frame mp self [img] 0 of
                  (Inl e, self1, s1) \<Rightarrow> (Inl e, self1)
                | (Inr processed_frame, self1, s1) \<Rightarrow>
                    (let (frame, s2) = cvtColor s1 processed_frame
                     in to_video_frame self1 (s2 ! frame)))))"

definition recv ::
  "variant \<Rightarrow> 'lm mediapipe \<Rightarrow> track_obj \<Rightarrow> image option \<Rightarrow> (exn + video_frame option) \<times> track_obj" where
  "recv v mp self rd = (case v of Plain \<Rightarrow> recv_plain self rd | WithPose \<Rightarrow> recv_pose mp self rd)"

text \<open>The media pipeline calling \<open>recv\<close> once per tick: the results, in order, and the object.\<close>

fun recvs ::
  "variant \<Rightarrow> 'lm mediapipe \<Rightarrow> track_obj \<Rightarrow> image option list \<Rightarrow>
     (exn + video_frame option) list \<times> track_obj" where
  "recvs v mp self [] = ([], self)"
| "recvs v mp self (rd # rds) =
     (let (r, self1) = recv v mp self rd;
          (rs, self2) = recvs v mp self1 rds
      in (r # rs, self2))"

text \<open>The frames emitted among the results of a run.\<close>

fun emitted :: "(exn + video_frame option) list \<Rightarrow> video_frame list" where
  "emitted [] = []"
| "emitted (Inr (Some f) # rs) = f # emitted rs"
| "emitted (_ # rs) = emitted rs"

subsection \<open>__del__\<close>

definition release_cap :: "track_obj \<Rightarrow> track_obj" where
  "release_cap self =
     (case cap self of
        Some (Some c) \<Rightarrow> self\<lparr>cap := Some (Some (release c))\<rparr>
      | _ \<Rightarrow> self)"

definition del_plain :: "track_obj \<Rightarrow> exn option \<times> track_obj" where
  "del_plain self = (None, release_cap self)"

definition del_pose :: "track_obj \<Rightarrow> exn option \<times> track_obj" where
  "del_pose self =
     (let self1 = release_cap self in
      case (case pose self1 of
              None \<Rightarrow> Inr self1
            | Some d \<Rightarrow>
                (case detector_close d of
                   Inl e \<Rightarrow> Inl e
                 | Inr d' \<Rightarrow> Inr (self1\<lparr>pose := Some d'\<rparr>))) of
        Inl e \<Rightarrow> (Some e, self1)
      | Inr self2 \<Rightarrow>
          (case hands self2 of
             None \<Rightarrow> (None, self2)
           | Some d \<Rightarrow>
               (case detector_close d of
                  Inl e \<Rightarrow> (Some e, self2)
                | Inr d' \<Rightarrow> (None, self2\<lparr>hands := Some d'\<rparr>))))"

definition del_track :: "variant \<Rightarrow> track_obj \<Rightarrow> exn option \<times> track_obj" where
  "del_track v self = (case v of Plain \<Rightarrow> del_plain self | WithPose \<Rightarrow> del_pose self)"

section \<open>The signalling endpoint\<close>

subsection \<open>The request body\<close>

datatype json =
    JNull
  | JBool bool
  | JNum int
  | JStr string
  | JArr "json list"
  | JObj "(string \<times> json) list"

text \<open>\<open>params[key]\<close> with a string key, on whatever \<open>request.json()\<close> returned.\<close>

fun subscript :: "json \<Rightarrow> string \<Rightarrow> exn + json" where
  "subscript (JObj kvs) k = (case map_of kvs k of None \<Rightarrow> Inl (KeyError k) | Some v \<Rightarrow> Inr v)"
| "subscript (JArr xs) k = Inl (TypeError ''list indices must be integers or slices, not str'')"
| "subscript (JStr x) k = Inl (TypeError ''string indices must be integers'')"
| "subscript j k = Inl (TypeError ''object is not subscriptable'')"

record session_description =
  sd_sdp :: json
  sd_type :: json

text \<open>
  The library's \<open>RTCSessionDescription\<close> is a dataclass that checks its \<open>type\<close>
  against the four SDP types and nothing else; the SDP text is parsed only when the
  description is applied to a connection.
\<close>

definition RTCSessionDescription :: "json \<Rightarrow> json \<Rightarrow> exn + session_description" where
  "RTCSessionDescription sdp ty =
     (if ty \<in> {JStr ''offer'', JStr ''pranswer'', JStr ''answer'', JStr ''rollback''}
      then Inr \<lparr>sd_sdp = sdp, sd_type = ty\<rparr>
      else Inl (ValueError ''Unexpected SDP type''))"

subsection \<open>Peer connections and the live-session collection\<close>

datatype connection_state = New | Connecting | Connected | Disconnected | Failed | Closed

record peer_connection =
  connectionState :: connection_state
  senders :: "track_obj list"
  remoteDescription :: "session_description option"
  localDescription :: "session_description option"

definition RTCPeerConnection :: peer_connection where
  "RTCPeerConnection =
     \<lparr>connectionState = New, senders = [], remoteDescription = None, localDescription = None\<rparr>"

text \<open>
  \<open>RTCPeerConnection.close\<close> is a coroutine function: calling it makes a coroutine
  object and runs nothing; its body runs when the coroutine is awaited.
\<close>

datatype coroutine = CloseCoroutine nat

text \<open>
  The process: the module-level set \<open>pcs\<close> (kept as a list without repetition, in the
  order of insertion), the peer connections by identity, and the coroutine objects that
  were made and never awaited.
\<close>

record server =
  pcs :: "nat list"
  objects :: "nat \<Rightarrow> peer_connection option"
  next_id :: nat
  unawaited :: "coroutine list"

definition set_add :: "nat \<Rightarrow> nat list \<Rightarrow> nat list" where
  "set_add x xs = (if x \<in> set xs then xs else xs @ [x])"

definition set_discard :: "nat \<Rightarrow> nat list \<Rightarrow> nat list" where
  "set_discard x xs = removeAll x xs"

definition close_body :: "server \<Rightarrow> nat \<Rightarrow> server" where
  "close_body s pc =
     (case objects s pc of
        None \<Rightarrow> s
      | Some p \<Rightarrow> s\<lparr>objects := (objects s)(pc \<mapsto> p\<lparr>connectionState := Closed\<rparr>)\<rparr>)"

definition call_close :: "server \<Rightarrow> nat \<Rightarrow> server" where
  "call_close s pc = s\<lparr>unawaited := unawaited s @ [CloseCoroutine pc]\<rparr>"

definition await_close :: "server \<Rightarrow> nat \<Rightarrow> server" where
  "await_close s pc = close_body s pc"

text \<open>The observer \<open>offer\<close> registers on the connection: \<open>await pc.close()\<close>, then discard.\<close>

definition on_connectionstatechange :: "server \<Rightarrow> nat \<Rightarrow> server" where
  "on_connectionstatechange s pc =
     (case objects s pc of
        None \<Rightarrow> s
      | Some p \<Rightarrow>
          if connectionState p = Failed
          then (let s1 = await_close s pc in s1\<lparr>pcs := set_discard pc (pcs s1)\<rparr>)
          else s)"

subsection \<open>offer\<close>

datatype payload = PlainText string | JsonDumps json

record response =
  status :: nat
  content_type :: string
  body :: payload

text \<open>What the request and the libraries answer during one call of \<open>offer\<close>.\<close>

record offer_world =
  request_json :: "exn + json"
  track_world :: world
  setRemoteDescription_raises :: "exn option"
  createAnswer_result :: "exn + session_description"
  setLocalDescription_raises :: "exn option"

definition update_pc :: "server \<Rightarrow> nat \<Rightarrow> (peer_connection \<Rightarrow> peer_connection) \<Rightarrow> server" where
  "update_pc s pc f =
     (case objects s pc of
        None \<Rightarrow> s
      | Some p \<Rightarrow> s\<lparr>objects := (objects s)(pc \<mapsto> f p)\<rparr>)"

text \<open>The body of the \<open>try\<close> statement: the exception raised in it, or the response.\<close>

definition offer_try ::
  "variant \<Rightarrow> offer_world \<Rightarrow> nat \<Rightarrow> session_description \<Rightarrow> server \<Rightarrow> (exn + response) \<times> server" where
  "offer_try v w pc remote s =
     (case init v (track_world w) of
        (Some e, partial) \<Rightarrow> (Inl e, s)
      | (None, video) \<Rightarrow>
          (let s1 = update_pc s pc (\<lambda>p. p\<lparr>senders := senders p @ [video]\<rparr>) in
           case setRemoteDescription_raises w of
             Some e \<Rightarrow> (Inl e, s1)
           | None \<Rightarrow>
               (let s2 = update_pc s1 pc (\<lambda>p. p\<lparr>remoteDescription := Some remote\<rparr>) in
                case createAnswer_result w of
                  Inl e \<Rightarrow> (Inl e, s2)
                | Inr answer \<Rightarrow>
                    (case setLocalDescription_raises w of
                       Some e \<Rightarrow> (Inl e, s2)
                     | None \<Rightarrow>
                         (Inr \<lparr>status = 200, content_type = ''application/json'',
                               body = JsonDumps (JObj [(''sdp'', sd_sdp answer),
                                                       (''type'', sd_type answer)])\<rparr>,
                          update_pc s2 pc (\<lambda>p. p\<lparr>localDescription := Some answer\<rparr>))))))"

text \<open>
  The handler: \<open>Inl e\<close> when the exception \<open>e\<close> leaves it, \<open>Inr r\<close> when it returns the
  response \<open>r\<close>. The first two statements and \<open>pcs.add(pc)\<close> stand before the
  \<open>try\<close>; \<open>except Exception\<close> catches what derives from \<open>Exception\<close>.
\<close>

definition offer :: "variant \<Rightarrow> offer_world \<Rightarrow> server \<Rightarrow> (exn + response) \<times> server" where
  "offer v w s =
     (case request_json w of
        Inl e \<Rightarrow> (Inl e, s)
      | Inr params \<Rightarrow>
          (case subscript params ''sdp'' of
             Inl e \<Rightarrow> (Inl e, s)
           | Inr sdp \<Rightarrow>
               (case subscript params ''type'' of
                  Inl e \<Rightarrow> (Inl e, s)
                | Inr ty \<Rightarrow>
                    (case RTCSessionDescription sdp ty of
                       Inl e \<Rightarrow> (Inl e, s)
                     | Inr remote \<Rightarrow>
                         (let pc = next_id s;
                              s1 = s\<lparr>objects := (objects s)(pc \<mapsto> RTCPeerConnection),
                                     next_id := Suc pc\<rparr>;
                              s2 = s1\<lparr>pcs := set_add pc (pcs s1)\<rparr>
                          in case offer_try v w pc remote s2 of
                               (Inr r, s3) \<Rightarrow> (Inr r, s3)
                             | (Inl e, s3) \<Rightarrow>
                                 if is_Exception e
                                 then (Inr \<lparr>status = 500, content_type = ''text/plain'',
                                            body = PlainText (str_exn e)\<rparr>, s3)
                                 else (Inl e, s3))))))"

subsection \<open>Process shutdown\<close>

text \<open>The \<open>finally\<close> clause of the main block: \<open>for pc in pcs: pc.close()\<close>.\<close>

definition main_finally :: "server \<Rightarrow> server" where
  "main_finally s = fold (\<lambda>pc st. call_close st pc) (pcs s) s"

section \<open>Invariants and sample inputs\<close>

text \<open>A track that \<open>__init__\<close> completed and that was not torn down.\<close>

definition ready :: "variant \<Rightarrow> track_obj \<Rightarrow> bool" where
  "ready v t =
     (cap t \<noteq> None \<and> cap t \<noteq> Some None \<and> pts t \<noteq> None \<and> time_base t = Some (Fract 1 30) \<and>
      (case v of
         Plain \<Rightarrow> True
       | WithPose \<Rightarrow>
           (case pose t of None \<Rightarrow> False | Some d \<Rightarrow> close_calls d = 0) \<and>
           (case hands t of None \<Rightarrow> False | Some d \<Rightarrow> close_calls d = 0)))"

text \<open>Sample worlds, detectors and frames, for evaluating the model.\<close>

definition camera_ok :: world where
  "camera_ok = \<lparr>VideoCapture_raises = None, camera_available = True,
                 Pose_raises = None, Hands_raises = None\<rparr>"

definition camera_missing :: world where
  "camera_missing = \<lparr>VideoCapture_raises = None, camera_available = False,
                      Pose_raises = None, Hands_raises = None\<rparr>"

definition paint :: "image \<Rightarrow> nat \<Rightarrow> connections \<Rightarrow> drawing_spec \<Rightarrow> drawing_spec \<Rightarrow> image" where
  "paint img lm conns lspec cspec =
     map (map (\<lambda>px. (case color lspec of (c0, c1, c2) \<Rightarrow> (of_nat c0, of_nat c1, of_nat c2)))) img"

definition sees_nothing :: "nat mediapipe" where
  "sees_nothing = \<lparr>pose_model = (\<lambda>h. None), hands_model = (\<lambda>h. None), draw_pixels = paint\<rparr>"

definition sees_pose :: "nat mediapipe" where
  "sees_pose = \<lparr>pose_model = (\<lambda>h. Some 0), hands_model = (\<lambda>h. None), draw_pixels = paint\<rparr>"

definition sees_hand :: "nat mediapipe" where
  "sees_hand = \<lparr>pose_model = (\<lambda>h. None), hands_model = (\<lambda>h. Some [1]), draw_pixels = paint\<rparr>"

definition one_pixel :: image where
  "one_pixel = [[(1, 2, 3)]]"

text \<open>How often the handles of a track were released, and a track none of whose handles was.\<close>

definition cap_releases :: "track_obj \<Rightarrow> nat" where
  "cap_releases t = (case cap t of Some (Some c) \<Rightarrow> release_calls c | _ \<Rightarrow> 0)"

definition detector_closes :: "detector option \<Rightarrow> nat" where
  "detector_closes d = (case d of Some x \<Rightarrow> close_calls x | None \<Rightarrow> 0)"

definition fresh :: "variant \<Rightarrow> track_obj \<Rightarrow> bool" where
  "fresh v t =
     (cap t \<noteq> Some None \<and> cap_releases t = 0 \<and>
      detector_closes (pose t) = 0 \<and> detector_closes (hands t) = 0 \<and>
      (v = Plain \<longrightarrow> pose t = None \<and> hands t = None))"

text \<open>
  A request body as \<open>offer\<close> meets it: \<open>missing_field\<close> holds of a JSON value that is
  not an object or lacks the key \<open>sdp\<close> or \<open>type\<close>. A body is unusable when it is
  not JSON at all (\<open>request.json()\<close> raises), a field is missing, or the type is none
  of the SDP types; it is well formed when it has both fields and a valid type, whatever
  the value of \<open>sdp\<close>.
\<close>

fun missing_field :: "json \<Rightarrow> bool" where
  "missing_field (JObj kvs) = (''sdp'' \<notin> set (map fst kvs) \<or> ''type'' \<notin> set (map fst kvs))"
| "missing_field j = True"

definition well_formed :: "offer_world \<Rightarrow> bool" where
  "well_formed w =
     (case request_json w of
        Inl e \<Rightarrow> False
      | Inr j \<Rightarrow>
          \<not> missing_field j \<and>
          (case subscript j ''type'' of
             Inl e \<Rightarrow> False
           | Inr ty \<Rightarrow> ty \<in> {JStr ''offer'', JStr ''pranswer'', JStr ''answer'', JStr ''rollback''}))"

definition unusable_body :: "offer_world \<Rightarrow> bool" where
  "unusable_body w =
     (case request_json w of
        Inl e \<Rightarrow> is_Exception e
      | Inr j \<Rightarrow>
          missing_field j \<or>
          (case subscript j ''type'' of
             Inl e \<Rightarrow> True
           | Inr ty \<Rightarrow> ty \<notin> {JStr ''offer'', JStr ''pranswer'', JStr ''answer'', JStr ''rollback''}))"

text \<open>Sample requests and servers.\<close>

definition good_body :: json where
  "good_body = JObj [(''sdp'', JStr ''v=0''), (''type'', JStr ''offer'')]"

definition numeric_sdp_body :: json where
  "numeric_sdp_body = JObj [(''sdp'', JNum 5), (''type'', JStr ''offer'')]"

definition answer_description :: session_description where
  "answer_description = \<lparr>sd_sdp = JStr ''v=0'', sd_type = JStr ''answer''\<rparr>"

definition request_with :: "exn + json \<Rightarrow> world \<Rightarrow> exn option \<Rightarrow> offer_world" where
  "request_with j cam remote_raises =
     \<lparr>request_json = j, track_world = cam, setRemoteDescription_raises = remote_raises,
      createAnswer_result = Inr answer_description, setLocalDescription_raises = None\<rparr>"

definition idle_server :: server where
  "idle_server = \<lparr>pcs = [], objects = (\<lambda>_. None), next_id = 0, unawaited = []\<rparr>"

definition two_sessions :: server where
  "two_sessions =
     \<lparr>pcs = [0, 1],
      objects = [0 \<mapsto> RTCPeerConnection\<lparr>connectionState := Connected\<rparr>,
                 1 \<mapsto> RTCPeerConnection\<lparr>connectionState := Connected\<rparr>],
      next_id = 2, unawaited = []\<rparr>"

section \<open>Properties of a constructed track\<close>

lemma open_camera_None:
  "open_camera w = (None, t) \<Longrightarrow>
     (\<exists>c. cap t = Some (Some c) \<and> release_calls c = 0) \<and> pose t = None \<and> hands t = None"
  by (auto simp: open_camera_def Let_def empty_obj_def cap_set_def VideoCapture_def isOpened_def
           split: option.splits if_splits)

lemma init_ready: "init v w = (None, t) \<Longrightarrow> ready v t \<and> pts t = Some 0"
  by (cases v)
     (auto simp: init_def init_plain_def init_pose_def ready_def Let_def new_detector_def
           dest!: open_camera_None split: option.splits prod.splits)

lemma process_frame_ok:
  assumes "pose t = Some pd" "close_calls pd = 0" "hands t = Some hdet" "close_calls hdet = 0"
  shows "\<exists>s'. process_frame mp t s frame =
           (Inr frame,
            t\<lparr>pose := Some (pd\<lparr>seen := seen pd @ [(snd (cvtColor s frame)) ! length s]\<rparr>),
              hands := Some (hdet\<lparr>seen := seen hdet @
                 [(draw_pose mp (snd (cvtColor s frame)) frame
                     (pose_model mp (seen pd @ [(snd (cvtColor s frame)) ! length s]))) ! length s]\<rparr>)\<rparr>,
            s')"
  using assms
  by (simp add: process_frame_def cvtColor_def detector_process_def Let_def)

lemma to_video_frame_ready:
  "ready v t \<Longrightarrow>
     \<exists>p. pts t = Some p \<and>
       (\<forall>d. to_video_frame t d =
         (Inr (Some \<lparr>vf_data = d, vf_pts = p, vf_time_base = Fract 1 30\<rparr>), t\<lparr>pts := Some (p + 1)\<rparr>))"
  by (auto simp: ready_def to_video_frame_def)

lemma recv_None: "cap t = Some (Some c) \<Longrightarrow> recv v mp t None = (Inr None, t)"
  by (cases v) (simp_all add: recv_def recv_plain_def recv_pose_def)

lemma process_frame_ready:
  assumes "ready WithPose t"
  shows "\<exists>t1 s'. process_frame mp t s frame = (Inr frame, t1, s') \<and> ready WithPose t1 \<and>
           pts t1 = pts t \<and> cap t1 = cap t \<and> time_base t1 = time_base t"
proof -
  from assms obtain pd hdet where a: "pose t = Some pd"
    "close_calls pd = 0" "hands t = Some hdet" "close_calls hdet = 0"
    by (auto simp: ready_def split: option.splits)
  from process_frame_ok[OF a, of mp s frame] obtain s' where
    "process_frame mp t s frame =
           (Inr frame,
            t\<lparr>pose := Some (pd\<lparr>seen := seen pd @ [(snd (cvtColor s frame)) ! length s]\<rparr>),
              hands := Some (hdet\<lparr>seen := seen hdet @
                 [(draw_pose mp (snd (cvtColor s frame)) frame
                     (pose_model mp (seen pd @ [(snd (cvtColor s frame)) ! length s]))) ! length s]\<rparr>)\<rparr>,
            s')" by blast
  moreover have "ready WithPose (t\<lparr>pose := Some (pd\<lparr>seen := x\<rparr>), hands := Some (hdet\<lparr>seen := y\<rparr>)\<rparr>)" for x y
    using assms a by (simp add: ready_def)
  ultimately show ?thesis by auto
qed

lemma recv_Some:
  assumes "ready v t"
  shows "\<exists>p d t'. pts t = Some p \<and>
           recv v mp t (Some img) =
             (Inr (Some \<lparr>vf_data = d, vf_pts = p, vf_time_base = Fract 1 30\<rparr>), t') \<and>
           ready v t' \<and> pts t' = Some (p + 1)"
proof (cases v)
  case Plain
  with assms show ?thesis
    using to_video_frame_ready[OF assms]
    by (auto simp: recv_def recv_plain_def cvtColor_def ready_def)
next
  case WithPose
  from assms WithPose obtain c where c: "cap t = Some (Some c)"
    by (auto simp: ready_def)
  from process_frame_ready[of t mp "[img]" 0] assms WithPose obtain s' t1 where
    pf: "process_frame mp t [img] 0 = (Inr 0, t1, s')"
    and t1: "ready v t1" "pts t1 = pts t"
    by auto
  from to_video_frame_ready[OF t1(1)] t1(2) obtain p where
    p: "pts t = Some p" "\<And>d. to_video_frame t1 d =
         (Inr (Some \<lparr>vf_data = d, vf_pts = p, vf_time_base = Fract 1 30\<rparr>), t1\<lparr>pts := Some (p + 1)\<rparr>)"
    by auto
  have "ready v (t1\<lparr>pts := Some (p + 1)\<rparr>)"
    using t1(1) by (cases v) (simp_all add: ready_def)
  with pf c p WithPose show ?thesis
    by (simp add: recv_def recv_pose_def cvtColor_def)
qed

lemma recvs_pts:
  "ready v t \<Longrightarrow> pts t = Some p \<Longrightarrow>
     map vf_pts (emitted (fst (recvs v mp t rds))) =
       map (\<lambda>i. p + int i) [0..<length (filter (\<lambda>rd. rd \<noteq> None) rds)]"
proof (induction rds arbitrary: t p)
  case Nil
  then show ?case by simp
next
  case (Cons rd rds)
  show ?case
  proof (cases rd)
    case None
    from Cons.prems obtain c where "cap t = Some (Some c)" by (auto simp: ready_def)
    then have "recv v mp t None = (Inr None, t)" by (rule recv_None)
    with None Cons.IH[OF Cons.prems] show ?thesis by (simp add: case_prod_beta)
  next
    case (Some img)
    from recv_Some[OF Cons.prems(1), of mp img] Cons.prems(2) obtain d t' where
      r: "recv v mp t (Some img) =
             (Inr (Some \<lparr>vf_data = d, vf_pts = p, vf_time_base = Fract 1 30\<rparr>), t')"
         "ready v t'" "pts t' = Some (p + 1)" by auto
    have "map (\<lambda>i. p + int i) [0..<Suc n] = p # map (\<lambda>i. p + 1 + int i) [0..<n]" for n
      by (induction n) auto
    with Some r Cons.IH[OF r(2,3)] show ?thesis
      by (simp add: case_prod_beta)
  qed
qed

lemma recvs_time_base:
  "ready v t \<Longrightarrow> f \<in> set (emitted (fst (recvs v mp t rds))) \<Longrightarrow> vf_time_base f = Fract 1 30"
proof (induction rds arbitrary: t)
  case Nil
  then show ?case by simp
next
  case (Cons rd rds)
  show ?case
  proof (cases rd)
    case None
    from Cons.prems obtain c where "cap t = Some (Some c)" by (auto simp: ready_def)
    then have "recv v mp t None = (Inr None, t)" by (rule recv_None)
    with None Cons.IH[of t] Cons.prems show ?thesis by (simp add: case_prod_beta)
  next
    case (Some img)
    from recv_Some[OF Cons.prems(1), of mp img] obtain p d t' where
      r: "recv v mp t (Some img) =
             (Inr (Some \<lparr>vf_data = d, vf_pts = p, vf_time_base = Fract 1 30\<rparr>), t')"
         "ready v t'" by auto
    with Some Cons.prems(2) Cons.IH[of t'] show ?thesis
      by (auto simp: case_prod_beta)
  qed
qed

lemma recvs_ready: "ready v t \<Longrightarrow> ready v (snd (recvs v mp t rds))"
proof (induction rds arbitrary: t)
  case Nil
  then show ?case by simp
next
  case (Cons rd rds)
  show ?case
  proof (cases rd)
    case None
    from Cons.prems obtain c where "cap t = Some (Some c)" by (auto simp: ready_def)
    then have "recv v mp t None = (Inr None, t)" by (rule recv_None)
    with None Cons.IH[OF Cons.prems] show ?thesis by (simp add: case_prod_beta)
  next
    case (Some img)
    from recv_Some[OF Cons.prems(1), of mp img] obtain p d t' where
      r: "recv v mp t (Some img) =
             (Inr (Some \<lparr>vf_data = d, vf_pts = p, vf_time_base = Fract 1 30\<rparr>), t')"
         "ready v t'" by auto
    with Some Cons.IH[OF r(2)] show ?thesis
      by (auto simp: case_prod_beta)
  qed
qed


lemma init_pose_camera_ok:
  "init WithPose camera_ok =
     (None, \<lparr>cap = Some (Some \<lparr>opened = True,
                props = [CAP_PROP_FRAME_WIDTH \<mapsto> 640, CAP_PROP_FRAME_HEIGHT \<mapsto> 480,
                         CAP_PROP_FPS \<mapsto> 30],
                release_calls = 0\<rparr>),
             pose = Some (new_detector (1 / 2) (1 / 2)),
             hands = Some (new_detector (1 / 2) (1 / 2)),
             time_base = Some (Fract 1 30), pts = Some 0\<rparr>)"
  by (simp add: init_def init_pose_def open_camera_def camera_ok_def VideoCapture_def
      cap_set_def isOpened_def empty_obj_def Let_def)

lemma init_plain_camera_ok:
  "init Plain camera_ok =
     (None, \<lparr>cap = Some (Some \<lparr>opened = True,
                props = [CAP_PROP_FRAME_WIDTH \<mapsto> 640, CAP_PROP_FRAME_HEIGHT \<mapsto> 480,
                         CAP_PROP_FPS \<mapsto> 30],
                release_calls = 0\<rparr>),
             pose = None, hands = None,
             time_base = Some (Fract 1 30), pts = Some 0\<rparr>)"
  by (simp add: init_def init_plain_def open_camera_def camera_ok_def VideoCapture_def
      cap_set_def isOpened_def empty_obj_def Let_def)

section \<open>The annotator\<close>

lemma fold_draw_landmarks:
  "frame < length s \<Longrightarrow>
     fold (\<lambda>lm st. draw_landmarks mp st frame lm conns lspec cspec) hls s =
       s[frame := fold (\<lambda>lm im. draw_pixels mp im lm conns lspec cspec) hls (s ! frame)]"
  by (induction hls arbitrary: s) (simp_all add: draw_landmarks_def)

lemma draw_pose_length [simp]: "length (draw_pose mp s frame pl) = length s"
  by (simp add: draw_pose_def draw_landmarks_def split: option.splits)

lemma draw_pose_other: "i \<noteq> frame \<Longrightarrow> draw_pose mp s frame pl ! i = s ! i"
  by (simp add: draw_pose_def draw_landmarks_def split: option.splits)

lemma draw_pose_frame:
  "frame < length s \<Longrightarrow>
     draw_pose mp s frame pl ! frame =
       (case pl of
          None \<Rightarrow> s ! frame
        | Some lm \<Rightarrow> draw_pixels mp (s ! frame) lm POSE_CONNECTIONS
                       pose_landmark_spec pose_connection_spec)"
  by (simp add: draw_pose_def draw_landmarks_def split: option.splits)

lemma draw_hands_frame:
  "frame < length s \<Longrightarrow>
     draw_hands mp s frame hl ! frame =
       (case hl of
          None \<Rightarrow> s ! frame
        | Some hls \<Rightarrow> fold (\<lambda>lm im. draw_pixels mp im lm HAND_CONNECTIONS
                          hand_landmark_spec hand_connection_spec) hls (s ! frame))"
  by (simp add: draw_hands_def fold_draw_landmarks split: option.splits)

lemma process_frame_result:
  assumes "frame < length s" "pose t = Some pd" "close_calls pd = 0"
    "hands t = Some hdet" "close_calls hdet = 0"
  shows "process_frame mp t s frame =
     (Inr frame,
      t\<lparr>pose := Some (pd\<lparr>seen := seen pd @ [swap_channels (s ! frame)]\<rparr>),
        hands := Some (hdet\<lparr>seen := seen hdet @ [swap_channels (s ! frame)]\<rparr>)\<rparr>,
      draw_hands mp
        (draw_pose mp (s @ [swap_channels (s ! frame)]) frame
           (pose_model mp (seen pd @ [swap_channels (s ! frame)])))
        frame (hands_model mp (seen hdet @ [swap_channels (s ! frame)])))"
proof -
  have "draw_pose mp (s @ [x]) frame pl ! length s = x" for x pl
    using assms(1) by (simp add: draw_pose_other)
  then show ?thesis
    using assms
    by (simp add: process_frame_def cvtColor_def detector_process_def Let_def)
qed

lemma ready_track:
  "pose (snd (init WithPose camera_ok)) = Some (new_detector (1 / 2) (1 / 2)) \<and>
   hands (snd (init WithPose camera_ok)) = Some (new_detector (1 / 2) (1 / 2)) \<and>
   close_calls (new_detector (1 / 2) (1 / 2)) = 0 \<and> seen (new_detector (1 / 2) (1 / 2)) = []"
  by (simp add: init_pose_camera_ok new_detector_def)

section \<open>Teardown\<close>

lemma open_camera_fresh:
  "cap (snd (open_camera w)) \<noteq> Some None \<and> cap_releases (snd (open_camera w)) = 0 \<and>
   pose (snd (open_camera w)) = None \<and> hands (snd (open_camera w)) = None"
  by (simp add: open_camera_def Let_def empty_obj_def cap_set_def VideoCapture_def
      cap_releases_def split: option.splits)

lemma init_fresh: "fresh v (snd (init v w))"
  using open_camera_fresh[of w]
  by (cases v; cases "open_camera w")
     (auto simp: init_def init_plain_def init_pose_def fresh_def Let_def new_detector_def
        cap_releases_def detector_closes_def split: option.splits)

lemma to_video_frame_keeps:
  "cap (snd (to_video_frame t d)) = cap t \<and> pose (snd (to_video_frame t d)) = pose t \<and>
   hands (snd (to_video_frame t d)) = hands t"
  by (simp add: to_video_frame_def split: option.splits)

lemma detector_process_closes:
  "close_calls (snd (detector_process model d img)) = close_calls d"
  by (simp add: detector_process_def)

lemma process_frame_keeps:
  "cap (fst (snd (process_frame mp t s f))) = cap t \<and>
   detector_closes (pose (fst (snd (process_frame mp t s f)))) = detector_closes (pose t) \<and>
   detector_closes (hands (fst (snd (process_frame mp t s f)))) = detector_closes (hands t)"
  by (simp add: process_frame_def cvtColor_def detector_process_def Let_def detector_closes_def
      split: option.splits sum.splits prod.splits)

lemma recv_fresh: "fresh v t \<Longrightarrow> fresh v (snd (recv v mp t rd))"
proof (cases v)
  case Plain
  assume "fresh v t"
  with Plain show ?thesis
    using to_video_frame_keeps[of t]
    by (auto simp: recv_def recv_plain_def fresh_def cap_releases_def cvtColor_def
        split: option.splits)
next
  case WithPose
  assume f: "fresh v t"
  show ?thesis
  proof (cases "\<exists>c img. cap t = Some (Some c) \<and> rd = Some img")
    case False
    with f WithPose show ?thesis
      by (auto simp: recv_def recv_pose_def split: option.splits)
  next
    case True
    then obtain c img where c: "cap t = Some (Some c)" "rd = Some img" by blast
    obtain r t1 s1 where pf: "process_frame mp t [img] 0 = (r, t1, s1)"
      by (cases "process_frame mp t [img] 0") auto
    from process_frame_keeps[of mp t "[img]" 0] pf f WithPose
    have t1: "fresh v t1" by (simp add: fresh_def cap_releases_def)
    have "fresh v (snd (to_video_frame t1 d))" for d
      using t1 to_video_frame_keeps[of t1 d] by (simp add: fresh_def cap_releases_def)
    with c pf t1 WithPose show ?thesis
      by (cases r) (simp_all add: recv_def recv_pose_def cvtColor_def)
  qed
qed

lemma recvs_fresh: "fresh v t \<Longrightarrow> fresh v (snd (recvs v mp t rds))"
proof (induction rds arbitrary: t)
  case Nil
  then show ?case by simp
next
  case (Cons rd rds)
  from Cons.IH[OF recv_fresh[OF Cons.prems, of mp rd]] show ?case
    by (simp add: case_prod_beta)
qed

lemma del_track_fresh:
  assumes "fresh v t"
  shows "fst (del_track v t) = None \<and>
     cap_releases (snd (del_track v t)) = (if cap t = None then 0 else 1) \<and>
     detector_closes (pose (snd (del_track v t))) = (if pose t = None then 0 else 1) \<and>
     detector_closes (hands (snd (del_track v t))) = (if hands t = None then 0 else 1)"
  using assms
  by (cases v)
     (auto simp: del_track_def del_plain_def del_pose_def release_cap_def release_def
        detector_close_def fresh_def cap_releases_def detector_closes_def Let_def
        split: option.splits)

section \<open>The handler\<close>

lemma subscript_JObj:
  "k \<in> set (map fst kvs) \<Longrightarrow> \<exists>v. subscript (JObj kvs) k = Inr v"
  using map_of_eq_None_iff[of kvs k] by (cases "map_of kvs k") auto

lemma subscript_missing:
  "k \<notin> set (map fst kvs) \<Longrightarrow> subscript (JObj kvs) k = Inl (KeyError k)"
  using map_of_eq_None_iff[of kvs k] by auto

lemma subscript_not_object:
  "\<forall>kvs. j \<noteq> JObj kvs \<Longrightarrow> \<exists>m. subscript j k = Inl (TypeError m)"
  by (cases j) auto

lemma unusable_body_raises:
  assumes "unusable_body w"
  shows "\<exists>e. offer v w s = (Inl e, s) \<and> is_Exception e"
proof (cases "request_json w")
  case (Inl e)
  with assms show ?thesis by (simp add: unusable_body_def offer_def)
next
  case (Inr j)
  show ?thesis
  proof (cases j)
    case (JObj kvs)
    show ?thesis
    proof (cases "''sdp'' \<in> set (map fst kvs)")
      case False
      from subscript_missing[OF False] Inr JObj show ?thesis by (simp add: offer_def)
    next
      case True
      then obtain sdp where sdp: "subscript (JObj kvs) ''sdp'' = Inr sdp"
        using subscript_JObj by blast
      show ?thesis
      proof (cases "''type'' \<in> set (map fst kvs)")
        case False
        from subscript_missing[OF False] Inr JObj sdp show ?thesis by (simp add: offer_def)
      next
        case t: True
        then obtain ty where ty: "subscript (JObj kvs) ''type'' = Inr ty"
          using subscript_JObj by blast
        with assms Inr JObj True t
        have "RTCSessionDescription sdp ty = Inl (ValueError ''Unexpected SDP type'')"
          by (simp add: unusable_body_def RTCSessionDescription_def del: subscript.simps)
        with Inr JObj sdp ty show ?thesis by (simp add: offer_def del: subscript.simps)
      qed
    qed
  qed (use Inr in \<open>simp_all add: offer_def\<close>)
qed

lemma well_formed_offer:
  assumes "well_formed w"
  shows "\<exists>remote. offer v w s =
     (let pc = next_id s;
          s1 = s\<lparr>objects := (objects s)(pc \<mapsto> RTCPeerConnection), next_id := Suc pc\<rparr>;
          s2 = s1\<lparr>pcs := set_add pc (pcs s1)\<rparr>
      in case offer_try v w pc remote s2 of
           (Inr r, s3) \<Rightarrow> (Inr r, s3)
         | (Inl e, s3) \<Rightarrow>
             if is_Exception e
             then (Inr \<lparr>status = 500, content_type = ''text/plain'',
                        body = PlainText (str_exn e)\<rparr>, s3)
             else (Inl e, s3))"
proof -
  from assms obtain kvs where j: "request_json w = Inr (JObj kvs)"
    and k: "''sdp'' \<in> set (map fst kvs)" "''type'' \<in> set (map fst kvs)"
    by (cases "request_json w"; cases "projr (request_json w)")
       (auto simp: well_formed_def)
  from k obtain sdp ty where st: "subscript (JObj kvs) ''sdp'' = Inr sdp"
    "subscript (JObj kvs) ''type'' = Inr ty"
    using subscript_JObj by blast
  with assms j have "RTCSessionDescription sdp ty = Inr \<lparr>sd_sdp = sdp, sd_type = ty\<rparr>"
    by (simp add: well_formed_def RTCSessionDescription_def del: subscript.simps)
  with j st show ?thesis
    by (intro exI[of _ "\<lparr>sd_sdp = sdp, sd_type = ty\<rparr>"]) (simp add: offer_def del: subscript.simps)
qed

lemma update_pc_pcs [simp]: "pcs (update_pc s pc f) = pcs s"
  by (simp add: update_pc_def split: option.splits)

lemma offer_try_pcs: "pcs (snd (offer_try v w pc remote s)) = pcs s"
  by (simp add: offer_try_def Let_def split: prod.splits option.splits sum.splits)

lemma offer_registers_session:
  assumes "well_formed w"
  shows "next_id s \<in> set (pcs (snd (offer v w s)))"
proof -
  from well_formed_offer[OF assms, of v s] obtain remote where
    o: "offer v w s =
     (let pc = next_id s;
          s1 = s\<lparr>objects := (objects s)(pc \<mapsto> RTCPeerConnection), next_id := Suc pc\<rparr>;
          s2 = s1\<lparr>pcs := set_add pc (pcs s1)\<rparr>
      in case offer_try v w pc remote s2 of
           (Inr r, s3) \<Rightarrow> (Inr r, s3)
         | (Inl e, s3) \<Rightarrow>
             if is_Exception e
             then (Inr \<lparr>status = 500, content_type = ''text/plain'',
                        body = PlainText (str_exn e)\<rparr>, s3)
             else (Inl e, s3))" by blast
  let ?s2 = "s\<lparr>objects := (objects s)(next_id s \<mapsto> RTCPeerConnection), next_id := Suc (next_id s),
                pcs := set_add (next_id s) (pcs s)\<rparr>"
  have "pcs (snd (offer v w s)) = pcs (snd (offer_try v w (next_id s) remote ?s2))"
    unfolding o by (simp add: Let_def split: prod.splits sum.splits)
  also have "\<dots> = set_add (next_id s) (pcs s)" by (simp add: offer_try_pcs)
  finally show ?thesis by (simp add: set_add_def)
qed

lemma init_camera_missing:
  assumes "VideoCapture_raises w = None" "\<not> camera_available w"
  shows "init v w = (Some (RuntimeError camera_error),
           empty_obj\<lparr>cap := Some (Some (VideoCapture False))\<rparr>)"
  using assms
  by (cases v)
     (simp_all add: init_def init_plain_def init_pose_def open_camera_def Let_def cap_set_def
        VideoCapture_def isOpened_def)

lemma init_camera_available:
  assumes "VideoCapture_raises w = None" "camera_available w"
  shows "\<exists>c. cap (snd (init v w)) = Some (Some c) \<and> opened c \<and>
           props c = [CAP_PROP_FRAME_WIDTH \<mapsto> 640, CAP_PROP_FRAME_HEIGHT \<mapsto> 480,
                      CAP_PROP_FPS \<mapsto> 30]"
  using assms
  by (cases v)
     (simp_all add: init_def init_plain_def init_pose_def open_camera_def Let_def cap_set_def
        VideoCapture_def isOpened_def empty_obj_def split: option.splits)

lemma well_formed_good_body: "well_formed (request_with (Inr good_body) cam r)"
  by (simp add: well_formed_def request_with_def good_body_def)

section \<open>Shutdown and the failure observer\<close>

lemma main_finally_objects: "objects (main_finally s) = objects s \<and> pcs (main_finally s) = pcs s"
proof -
  have "objects (fold (\<lambda>pc st. call_close st pc) xs s) = objects s \<and>
        pcs (fold (\<lambda>pc st. call_close st pc) xs s) = pcs s" for xs
    by (induction xs arbitrary: s) (simp_all add: call_close_def)
  then show ?thesis by (simp add: main_finally_def)
qed

lemma observer_closes_failed_session:
  "objects s pc = Some p \<Longrightarrow> connectionState p = Failed \<Longrightarrow>
     map_option connectionState (objects (on_connectionstatechange s pc) pc) = Some Closed \<and>
     pc \<notin> set (pcs (on_connectionstatechange s pc))"
  by (simp add: on_connectionstatechange_def await_close_def close_body_def set_discard_def Let_def)

section \<open>The claims\<close>

text \<open>
  C1. When the \<open>try\<close> block of \<open>offer\<close> raises, the handler does answer 500 with the
  exception text, but the peer connection it made stays in \<open>pcs\<close>: \<open>pcs.add(pc)\<close>
  precedes the \<open>try\<close> and the \<open>except\<close> clause discards nothing. Shown on a request
  that finds no camera (plain variant) and on one whose SDP the connection rejects (pose
  variant): in both the answer is 500 and \<open>pcs\<close> holds the new connection 0.
\<close>

theorem failed_offer_keeps_session:
  "fst (offer Plain (request_with (Inr good_body) camera_missing None) idle_server) =
     Inr \<lparr>status = 500, content_type = ''text/plain'', body = PlainText camera_error\<rparr> \<and>
   pcs (snd (offer Plain (request_with (Inr good_body) camera_missing None) idle_server)) = [0] \<and>
   fst (offer WithPose (request_with (Inr good_body) camera_ok (Some (ValueError ''bad sdp'')))
     idle_server) =
     Inr \<lparr>status = 500, content_type = ''text/plain'', body = PlainText ''bad sdp''\<rparr> \<and>
   pcs (snd (offer WithPose (request_with (Inr good_body) camera_ok (Some (ValueError ''bad sdp'')))
     idle_server)) = [0]"
  by (simp add: offer_def request_with_def good_body_def RTCSessionDescription_def idle_server_def
      offer_try_def init_camera_missing camera_missing_def init_pose_camera_ok set_add_def
      update_pc_def Let_def)

text \<open>
  C2. On a constructed track, whatever the reads do, the frames emitted carry the counters
  0, 1, 2, ... in order, one per successful read: the Nth frame emitted has \<open>pts = N - 1\<close>,
  and a failed read neither consumes nor resets the counter.
\<close>

theorem recv_pts_sequence:
  assumes "init v w = (None, t)"
  shows "map vf_pts (emitted (fst (recvs v mp t rds))) =
           map int [0..<length (filter (\<lambda>rd. rd \<noteq> None) rds)]"
  using recvs_pts[of v t 0 mp rds] init_ready[OF assms] by simp

theorem recv_pts_sequence_witness:
  "init WithPose camera_ok = (None, snd (init WithPose camera_ok)) \<and>
   map vf_pts (emitted (fst (recvs WithPose sees_pose (snd (init WithPose camera_ok))
     [Some one_pixel, None, Some one_pixel, None, None, Some one_pixel]))) = [0, 1, 2]"
proof -
  have h: "init WithPose camera_ok = (None, snd (init WithPose camera_ok))"
    by (simp add: init_pose_camera_ok)
  have "[0..<3] = [0, 1, 2]" by (simp add: upt_rec)
  with recv_pts_sequence[OF h, of sees_pose
      "[Some one_pixel, None, Some one_pixel, None, None, Some one_pixel]"] h
  show ?thesis by simp
qed

text \<open>
  C3. The \<open>finally\<close> clause calls \<open>pc.close()\<close> on every connection of \<open>pcs\<close> and
  awaits none of the coroutines: with two connected sessions, both are still connected
  afterwards and two coroutine objects were made and never run.
\<close>

theorem shutdown_leaves_sessions_open:
  "pcs two_sessions = [0, 1] \<and>
   map (\<lambda>pc. map_option connectionState (objects (main_finally two_sessions) pc)) [0, 1] =
     [Some Connected, Some Connected] \<and>
   unawaited (main_finally two_sessions) = [CloseCoroutine 0, CloseCoroutine 1]"
  by (simp add: main_finally_def two_sessions_def call_close_def RTCPeerConnection_def)

text \<open>
  C4. \<open>process_frame\<close> on a track whose detectors are open returns the array it was given.
  With \<open>pl\<close> and \<open>hl\<close> what the pose and the hand detector find on the RGB copy: if
  neither finds anything the pixels are unchanged; if only a pose is found the pixels are
  the pose overlay of the input and nothing else; if only hands are found they are the
  hand overlays of the input, one per hand, and nothing else.
\<close>

theorem process_frame_overlays:
  assumes "frame < length s" "pose t = Some pd" "close_calls pd = 0"
    "hands t = Some hdet" "close_calls hdet = 0"
    and "process_frame mp t s frame = (r, t', s')"
    and "pl = pose_model mp (seen pd @ [swap_channels (s ! frame)])"
    and "hl = hands_model mp (seen hdet @ [swap_channels (s ! frame)])"
  shows "r = Inr frame \<and>
    (pl = None \<and> (hl = None \<or> hl = Some []) \<longrightarrow> s' ! frame = s ! frame) \<and>
    (\<forall>lm. pl = Some lm \<and> (hl = None \<or> hl = Some []) \<longrightarrow>
       s' ! frame = draw_pixels mp (s ! frame) lm POSE_CONNECTIONS
                      pose_landmark_spec pose_connection_spec) \<and>
    (\<forall>hls. pl = None \<and> hl = Some hls \<longrightarrow>
       s' ! frame = fold (\<lambda>lm im. draw_pixels mp im lm HAND_CONNECTIONS
                      hand_landmark_spec hand_connection_spec) hls (s ! frame))"
proof -
  let ?rgb = "swap_channels (s ! frame)"
  from process_frame_result[OF assms(1-5), of mp] assms(6-8)
  have r: "r = Inr frame" and s': "s' = draw_hands mp (draw_pose mp (s @ [?rgb]) frame pl) frame hl"
    by simp_all
  have "s' ! frame =
     (case hl of
        None \<Rightarrow> (case pl of None \<Rightarrow> s ! frame
                  | Some lm \<Rightarrow> draw_pixels mp (s ! frame) lm POSE_CONNECTIONS
                       pose_landmark_spec pose_connection_spec)
      | Some hls \<Rightarrow> fold (\<lambda>lm im. draw_pixels mp im lm HAND_CONNECTIONS
                          hand_landmark_spec hand_connection_spec) hls
           (case pl of None \<Rightarrow> s ! frame
                  | Some lm \<Rightarrow> draw_pixels mp (s ! frame) lm POSE_CONNECTIONS
                       pose_landmark_spec pose_connection_spec))"
    using assms(1) unfolding s'
    by (simp add: draw_hands_frame draw_pose_frame nth_append split: option.splits)
  with r show ?thesis by auto
qed

theorem process_frame_overlays_witness:
  "snd (snd (process_frame sees_nothing (snd (init WithPose camera_ok)) [one_pixel] 0)) ! 0 =
     one_pixel \<and>
   snd (snd (process_frame sees_pose (snd (init WithPose camera_ok)) [one_pixel] 0)) ! 0 =
     [[(0, 255, 0)]] \<and>
   snd (snd (process_frame sees_hand (snd (init WithPose camera_ok)) [one_pixel] 0)) ! 0 =
     [[(0, 0, 255)]]"
proof -
  let ?t = "snd (init WithPose camera_ok)"
  let ?d = "new_detector (1 / 2) (1 / 2)"
  have a: "0 < length [one_pixel]" "pose ?t = Some ?d" "close_calls ?d = 0"
    "hands ?t = Some ?d" "close_calls ?d = 0"
    using ready_track by simp_all
  have c: "process_frame mp ?t [one_pixel] 0 =
      (fst (process_frame mp ?t [one_pixel] 0), fst (snd (process_frame mp ?t [one_pixel] 0)),
       snd (snd (process_frame mp ?t [one_pixel] 0)))" for mp :: "nat mediapipe"
    by simp
  note th = process_frame_overlays[OF a c refl refl]
  show ?thesis
    using th[of sees_nothing] th[of sees_pose] th[of sees_hand] ready_track
    by (simp add: sees_nothing_def sees_pose_def sees_hand_def paint_def one_pixel_def
        pose_landmark_spec_def hand_landmark_spec_def DrawingSpec_def)
qed

text \<open>
  C5. On a constructed track, at any point of its life, a call of \<open>recv\<close> whose device
  read fails returns None, raises nothing and leaves the track as it was, so the caller
  may call again.
\<close>

theorem recv_read_failure:
  assumes "init v w = (None, t0)" and "snd (recvs v mp t0 rds) = t"
  shows "recv v mp t None = (Inr None, t)"
proof -
  from init_ready[OF assms(1)] have "ready v t0" by simp
  then have "ready v t" using recvs_ready[of v t0 mp rds] assms(2) by simp
  then obtain c where "cap t = Some (Some c)" by (auto simp: ready_def)
  then show ?thesis by (rule recv_None)
qed

theorem recv_read_failure_witness:
  "init Plain camera_ok = (None, snd (init Plain camera_ok)) \<and>
   recv Plain sees_nothing
     (snd (recvs Plain sees_nothing (snd (init Plain camera_ok)) [Some one_pixel, None])) None =
   (Inr None, snd (recvs Plain sees_nothing (snd (init Plain camera_ok)) [Some one_pixel, None]))"
proof -
  have h: "init Plain camera_ok = (None, snd (init Plain camera_ok))"
    by (simp add: init_plain_camera_ok)
  from recv_read_failure[OF h refl, of sees_nothing "[Some one_pixel, None]"] h
  show ?thesis by (rule conjI[rotated])
qed

text \<open>
  C6. A body whose \<open>sdp\<close> field is malformed, here the number 5 where SDP text belongs,
  has both fields and a valid type, so \<open>RTCSessionDescription\<close> accepts it and
  \<open>pcs.add(pc)\<close> runs; applying the description then raises inside the \<open>try\<close>.
  The answer is a server error, and the connection made for the request stays in \<open>pcs\<close>,
  which was empty before, in both variants. (A body that is not JSON, is not an object,
  lacks a field or names no SDP type raises before \<open>pcs.add(pc)\<close> and leaves the
  process as it was: \<open>unusable_body_raises\<close>.)
\<close>

theorem malformed_sdp_offer_keeps_session:
  "pcs idle_server = [] \<and>
   fst (offer Plain
     (request_with (Inr numeric_sdp_body) camera_ok (Some (AttributeError ''splitlines'')))
     idle_server) =
     Inr \<lparr>status = 500, content_type = ''text/plain'', body = PlainText ''splitlines''\<rparr> \<and>
   pcs (snd (offer Plain
     (request_with (Inr numeric_sdp_body) camera_ok (Some (AttributeError ''splitlines'')))
     idle_server)) = [0] \<and>
   fst (offer WithPose
     (request_with (Inr numeric_sdp_body) camera_ok (Some (AttributeError ''splitlines'')))
     idle_server) =
     Inr \<lparr>status = 500, content_type = ''text/plain'', body = PlainText ''splitlines''\<rparr> \<and>
   pcs (snd (offer WithPose
     (request_with (Inr numeric_sdp_body) camera_ok (Some (AttributeError ''splitlines'')))
     idle_server)) = [0]"
  by (simp add: offer_def request_with_def numeric_sdp_body_def RTCSessionDescription_def
      idle_server_def offer_try_def init_plain_camera_ok init_pose_camera_ok set_add_def
      update_pc_def Let_def)

text \<open>
  C7. Every frame a constructed track emits carries the time base \<open>Fraction(1, 30)\<close>,
  whatever the sequence of reads.
\<close>

theorem recv_time_base:
  assumes "init v w = (None, t)"
  shows "\<forall>f \<in> set (emitted (fst (recvs v mp t rds))). vf_time_base f = Fract 1 30"
  using recvs_time_base[of v t _ mp rds] init_ready[OF assms] by blast

theorem recv_time_base_witness:
  "init Plain camera_ok = (None, snd (init Plain camera_ok)) \<and>
   map vf_time_base (emitted (fst (recvs Plain sees_nothing (snd (init Plain camera_ok))
     [Some one_pixel, None, Some one_pixel]))) = [Fract 1 30, Fract 1 30]"
proof -
  have h: "init Plain camera_ok = (None, snd (init Plain camera_ok))"
    by (simp add: init_plain_camera_ok)
  have n: "length (emitted (fst (recvs Plain sees_nothing (snd (init Plain camera_ok))
     [Some one_pixel, None, Some one_pixel]))) = 2"
    by (simp add: init_plain_camera_ok recv_def recv_plain_def to_video_frame_def cvtColor_def)
  have "length xs = 2 \<Longrightarrow> \<forall>f \<in> set xs. vf_time_base f = Fract 1 30 \<Longrightarrow>
          map vf_time_base xs = [Fract 1 30, Fract 1 30]" for xs :: "video_frame list"
    by (cases xs; cases "tl xs") auto
  from this[OF n recv_time_base[OF h]] h show ?thesis by (rule conjI[rotated])
qed

text \<open>
  C8. If the device does not open, \<open>__init__\<close> raises \<open>RuntimeError\<close> with the camera
  message, and a well-formed request that triggered the construction is answered 500 with
  that message, no track being attached to its connection. If the device opens, the
  capture held by the object was set to width 640, height 480 and 30 frames per second.
\<close>

theorem camera_open_failure_is_fatal:
  "(VideoCapture_raises (track_world ow) = None \<and> \<not> camera_available (track_world ow) \<longrightarrow>
      fst (init v (track_world ow)) = Some (RuntimeError camera_error) \<and>
      (well_formed ow \<longrightarrow>
         fst (offer v ow s) =
           Inr \<lparr>status = 500, content_type = ''text/plain'', body = PlainText camera_error\<rparr> \<and>
         map_option senders (objects (snd (offer v ow s)) (next_id s)) = Some [])) \<and>
   (VideoCapture_raises (track_world ow) = None \<and> camera_available (track_world ow) \<longrightarrow>
      (\<exists>c. cap (snd (init v (track_world ow))) = Some (Some c) \<and> opened c \<and>
           props c = [CAP_PROP_FRAME_WIDTH \<mapsto> 640, CAP_PROP_FRAME_HEIGHT \<mapsto> 480,
                      CAP_PROP_FPS \<mapsto> 30]))"
proof (intro conjI impI; (elim conjE)?)
  assume a: "VideoCapture_raises (track_world ow) = None" "\<not> camera_available (track_world ow)"
  from init_camera_missing[OF a, of v]
  show "fst (init v (track_world ow)) = Some (RuntimeError camera_error)" by simp
next
  assume a: "VideoCapture_raises (track_world ow) = None" "\<not> camera_available (track_world ow)"
    and wf: "well_formed ow"
  from well_formed_offer[OF wf, of v s] obtain remote where
    o: "offer v ow s =
     (let pc = next_id s;
          s1 = s\<lparr>objects := (objects s)(pc \<mapsto> RTCPeerConnection), next_id := Suc pc\<rparr>;
          s2 = s1\<lparr>pcs := set_add pc (pcs s1)\<rparr>
      in case offer_try v ow pc remote s2 of
           (Inr r, s3) \<Rightarrow> (Inr r, s3)
         | (Inl e, s3) \<Rightarrow>
             if is_Exception e
             then (Inr \<lparr>status = 500, content_type = ''text/plain'',
                        body = PlainText (str_exn e)\<rparr>, s3)
             else (Inl e, s3))" by blast
  have t: "offer_try v ow pc remote s2 = (Inl (RuntimeError camera_error), s2)" for pc s2
    using init_camera_missing[OF a, of v] by (simp add: offer_try_def)
  show "fst (offer v ow s) =
           Inr \<lparr>status = 500, content_type = ''text/plain'', body = PlainText camera_error\<rparr>"
    unfolding o by (simp add: Let_def t)
  show "map_option senders (objects (snd (offer v ow s)) (next_id s)) = Some []"
    unfolding o by (simp add: Let_def t RTCPeerConnection_def)
next
  assume a: "VideoCapture_raises (track_world ow) = None" "camera_available (track_world ow)"
  from init_camera_available[OF a, of v]
  show "\<exists>c. cap (snd (init v (track_world ow))) = Some (Some c) \<and> opened c \<and>
           props c = [CAP_PROP_FRAME_WIDTH \<mapsto> 640, CAP_PROP_FRAME_HEIGHT \<mapsto> 480,
                      CAP_PROP_FPS \<mapsto> 30]" .
qed

theorem camera_open_failure_is_fatal_witness:
  "fst (init WithPose camera_missing) = Some (RuntimeError camera_error) \<and>
   fst (offer WithPose (request_with (Inr good_body) camera_missing None) idle_server) =
     Inr \<lparr>status = 500, content_type = ''text/plain'', body = PlainText camera_error\<rparr> \<and>
   map_option senders
     (objects (snd (offer WithPose (request_with (Inr good_body) camera_missing None) idle_server)) 0)
     = Some [] \<and>
   map_option (map_option (\<lambda>c. (props c CAP_PROP_FRAME_WIDTH, props c CAP_PROP_FRAME_HEIGHT,
       props c CAP_PROP_FPS))) (cap (snd (init WithPose camera_ok))) =
     Some (Some (Some 640, Some 480, Some 30))"
proof -
  have a: "track_world (request_with (Inr good_body) cam None) = cam" for cam
    by (simp add: request_with_def)
  have b: "VideoCapture_raises camera_missing = None" "\<not> camera_available camera_missing"
    "VideoCapture_raises camera_ok = None" "camera_available camera_ok"
    "next_id idle_server = 0"
    by (simp_all add: camera_missing_def camera_ok_def idle_server_def)
  show ?thesis
    using camera_open_failure_is_fatal[of "request_with (Inr good_body) camera_missing None"
        WithPose idle_server]
      camera_open_failure_is_fatal[of "request_with (Inr good_body) camera_ok None"
        WithPose idle_server]
      well_formed_good_body[of camera_missing None]
    by (auto simp: a b)
qed

text \<open>
  C9. Take the object \<open>__init__\<close> leaves, whether it completed or raised at any stage,
  after any calls of \<open>recv\<close>. Nothing was released before teardown; \<open>__del__\<close> raises
  nothing, and afterwards each handle the object holds (the capture, and in the pose variant
  either detector) was released exactly once, a handle never assigned not at all.
\<close>

theorem teardown_releases_once:
  "let t = snd (recvs v mp (snd (init v w)) rds); r = del_track v t in
     fst r = None \<and>
     cap_releases t = 0 \<and> cap_releases (snd r) = (if cap t = None then 0 else 1) \<and>
     detector_closes (pose t) = 0 \<and>
     detector_closes (pose (snd r)) = (if pose t = None then 0 else 1) \<and>
     detector_closes (hands t) = 0 \<and>
     detector_closes (hands (snd r)) = (if hands t = None then 0 else 1)"
proof -
  have f: "fresh v (snd (recvs v mp (snd (init v w)) rds))"
    by (rule recvs_fresh[OF init_fresh])
  from del_track_fresh[OF f] f show ?thesis
    by (simp add: Let_def fresh_def)
qed

theorem teardown_releases_once_witness:
  "fst (del_track WithPose (snd (recvs WithPose sees_pose (snd (init WithPose camera_ok))
      [Some one_pixel, None]))) = None \<and>
   cap_releases (snd (del_track WithPose (snd (recvs WithPose sees_pose
      (snd (init WithPose camera_ok)) [Some one_pixel, None])))) = 1 \<and>
   detector_closes (pose (snd (del_track WithPose (snd (recvs WithPose sees_pose
      (snd (init WithPose camera_ok)) [Some one_pixel, None]))))) = 1 \<and>
   detector_closes (hands (snd (del_track WithPose (snd (recvs WithPose sees_pose
      (snd (init WithPose camera_ok)) [Some one_pixel, None]))))) = 1 \<and>
   fst (del_track WithPose (snd (init WithPose camera_missing))) = None \<and>
   cap_releases (snd (del_track WithPose (snd (init WithPose camera_missing)))) = 1 \<and>
   detector_closes (pose (snd (del_track WithPose (snd (init WithPose camera_missing))))) = 0"
proof -
  let ?t = "snd (recvs WithPose sees_pose (snd (init WithPose camera_ok)) [Some one_pixel, None])"
  have "init WithPose camera_ok = (None, snd (init WithPose camera_ok))"
    by (simp add: init_pose_camera_ok)
  then have "ready WithPose (snd (init WithPose camera_ok))"
    using init_ready by blast
  then have "ready WithPose ?t"
    by (rule recvs_ready)
  then have a: "cap ?t \<noteq> None" "pose ?t \<noteq> None" "hands ?t \<noteq> None"
    by (auto simp: ready_def split: option.splits)
  have b: "cap (snd (init WithPose camera_missing)) \<noteq> None"
    "pose (snd (init WithPose camera_missing)) = None"
    by (simp_all add: init_camera_missing camera_missing_def empty_obj_def)
  show ?thesis
    using teardown_releases_once[of WithPose sees_pose camera_ok "[Some one_pixel, None]"]
      teardown_releases_once[of WithPose sees_pose camera_missing "[]"] a b
    by (simp add: Let_def)
qed

text \<open>
  C10. In \<open>process_frame\<close> both detectors consume the RGB copy of the raw frame: after the
  call each history has grown by exactly that copy, whatever the pose detector found and
  whatever was drawn into the frame. Two runs, with any detectors and drawing routines, on
  frames with the same RGB copy feed both detectors the same images.
\<close>

theorem hands_input_is_raw_copy:
  assumes "f1 < length s1" "f2 < length s2" "pose t = Some pd" "close_calls pd = 0"
    "hands t = Some hdet" "close_calls hdet = 0"
    and "swap_channels (s1 ! f1) = swap_channels (s2 ! f2)"
  shows "pose (fst (snd (process_frame mp1 t s1 f1))) =
           Some (pd\<lparr>seen := seen pd @ [swap_channels (s1 ! f1)]\<rparr>) \<and>
         hands (fst (snd (process_frame mp1 t s1 f1))) =
           Some (hdet\<lparr>seen := seen hdet @ [swap_channels (s1 ! f1)]\<rparr>) \<and>
         pose (fst (snd (process_frame mp2 t s2 f2))) = pose (fst (snd (process_frame mp1 t s1 f1))) \<and>
         hands (fst (snd (process_frame mp2 t s2 f2))) = hands (fst (snd (process_frame mp1 t s1 f1)))"
  using process_frame_result[OF assms(1,3-6), of mp1] process_frame_result[OF assms(2-6), of mp2]
    assms(7)
  by simp

theorem hands_input_is_raw_copy_witness:
  "map_option seen (hands (fst (snd (process_frame sees_pose (snd (init WithPose camera_ok))
       [one_pixel] 0)))) = Some [[[(3, 2, 1)]]] \<and>
   map_option seen (hands (fst (snd (process_frame sees_nothing (snd (init WithPose camera_ok))
       [[], one_pixel] 1)))) = Some [[[(3, 2, 1)]]]"
proof -
  let ?t = "snd (init WithPose camera_ok)"
  let ?d = "new_detector (1 / 2) (1 / 2)"
  have a: "0 < length [one_pixel]" "1 < length [[], one_pixel]" "pose ?t = Some ?d"
    "close_calls ?d = 0" "hands ?t = Some ?d" "close_calls ?d = 0"
    "swap_channels ([one_pixel] ! 0) = swap_channels ([[], one_pixel] ! 1)"
    using ready_track by simp_all
  show ?thesis
    using hands_input_is_raw_copy[OF a, of sees_pose sees_nothing] ready_track
    by (simp add: swap_channels_def one_pixel_def)
qed

end
